theory Spec2Isabelle
  imports Main "HOL-Library.Sublist"
begin

section \<open>The flow builder's graph, history and validation (FlowBuilder component)\<close>

text \<open>
  A shallow embedding of the FlowBuilder component: the React state of the component
  (node list, edge list, selected node), its three refs (history, history index, the
  undo/redo flag) and the notifications it emits become one record that every handler
  takes and returns. Handlers run one after another, each on the state the previous one
  left.
\<close>

subsection \<open>Data model\<close>

text \<open>Canvas coordinates are only stored and copied by this component.\<close>

record xy_position =
  pos_x :: int
  pos_y :: int

record node_data =
  label :: string

record node =
  node_id :: string
  node_type :: string
  position :: xy_position
  data :: node_data

text \<open>
  The \<open>params\<close> object handed to \<open>onConnect\<close>; a handle is a string or \<open>null\<close>.
\<close>

record connection =
  source :: string
  sourceHandle :: "string option"
  target :: string
  targetHandle :: "string option"

text \<open>
  An edge is a connection with further fields. The object \<open>onConnect\<close> builds carries no
  \<open>id\<close> of its own (the canvas library assigns one), hence the option.
\<close>

record edge = connection +
  edge_id :: "string option"
  animated :: bool
  strokeWidth :: nat

text \<open>A change event of the canvas: its \<open>type\<close> tag and the id it concerns.\<close>

record change =
  change_type :: string
  change_id :: string

datatype severity = Warn | Error | Success

record toast =
  severity :: severity
  message :: string
  toast_position :: string
  autoClose :: nat

text \<open>A history entry \<open>{ nodes, edges }\<close>.\<close>

record snapshot =
  nodes :: "node list"
  edges :: "edge list"

text \<open>
  The component's state: the live \<open>nodes\<close> and \<open>edges\<close> (the two fields of
  \<open>snapshot\<close>), the selection, the refs, and the notifications shown so far.
\<close>

record flow_state = snapshot +
  selectedNode :: "node option"
  historyRef :: "snapshot list"
  historyIndexRef :: int
  isUndoRedoAction :: bool
  toasts :: "toast list"

text \<open>
  Reading a property of \<open>undefined\<close> throws; the refs keep what was written to them
  before the throw, so the error carries the state it leaves behind.
\<close>

datatype error = TypeError flow_state

definition MAX_HISTORY :: nat where
  "MAX_HISTORY = 50"

definition initial :: flow_state where
  "initial = \<lparr> nodes = [], edges = [], selectedNode = None,
     historyRef = [\<lparr> nodes = [], edges = [] \<rparr>], historyIndexRef = 0,
     isUndoRedoAction = False, toasts = [] \<rparr>"

subsection \<open>JavaScript array primitives\<close>

text \<open>
  \<open>JSON.parse(JSON.stringify(v))\<close>: a structurally equal, unshared copy. Values of HOL
  are never shared, so the copy is the value.
\<close>

definition deepCopy :: "'a \<Rightarrow> 'a" where
  "deepCopy v = v"

text \<open>\<open>xs.slice(0, e)\<close>: a negative end counts from the back, a large one is clipped.\<close>

definition slice0 :: "'a list \<Rightarrow> int \<Rightarrow> 'a list" where
  "slice0 xs e = (if e < 0 then take (nat (int (length xs) + e)) xs else take (nat e) xs)"

text \<open>\<open>xs[i]\<close>: \<open>undefined\<close> outside the array.\<close>

definition index :: "'a list \<Rightarrow> int \<Rightarrow> 'a option" where
  "index xs i = (if 0 \<le> i \<and> i < int (length xs) then Some (xs ! nat i) else None)"

subsection \<open>Save and validation\<close>

definition emptyFlowToast :: toast where
  "emptyFlowToast = \<lparr> severity = Error,
     message = ''Cannot save an empty flow. Add some nodes first!'',
     toast_position = ''top-center'', autoClose = 3000 \<rparr>"

definition multipleEntryToast :: toast where
  "multipleEntryToast = \<lparr> severity = Error,
     message = ''Flow validation failed! More than one node has an empty target handle. Please connect all nodes.'',
     toast_position = ''top-center'', autoClose = 4000 \<rparr>"

definition savedToast :: toast where
  "savedToast = \<lparr> severity = Success,
     message = ''Flow saved successfully!'',
     toast_position = ''top-center'', autoClose = 3000 \<rparr>"

definition notify :: "toast \<Rightarrow> flow_state \<Rightarrow> flow_state" where
  "notify t st = st\<lparr> toasts := toasts st @ [t] \<rparr>"

definition onSave :: "flow_state \<Rightarrow> flow_state" where
  "onSave st =
     (if length (nodes st) = 0 then notify emptyFlowToast st
      else
        let nodesWithIncomingEdge = set (map target (edges st));
            nodesWithEmptyTarget =
              filter (\<lambda>n. \<not> (node_id n \<in> nodesWithIncomingEdge)) (nodes st)
        in if length nodesWithEmptyTarget > 1 then notify multipleEntryToast st
           else notify savedToast st)"

text \<open>
  The specification's words for the entry-point check: a node is unreached when no edge
  has it as target.
\<close>

definition unreached :: "node list \<Rightarrow> edge list \<Rightarrow> node list" where
  "unreached ns es = filter (\<lambda>n. \<not> list_ex (\<lambda>e. target e = node_id n) es) ns"

subsection \<open>Undo/redo history\<close>

text \<open>
  \<open>pushHistory\<close>: skipped once when the undo/redo flag is set (the flag is cleared);
  otherwise the entries after the current index are dropped, the new snapshot is
  appended, the oldest entry is shifted out when the length exceeds the cap, and the
  index moves to the last entry.
\<close>

definition pushHistory :: "node list \<Rightarrow> edge list \<Rightarrow> flow_state \<Rightarrow> flow_state" where
  "pushHistory newNodes newEdges st =
     (if isUndoRedoAction st then st\<lparr> isUndoRedoAction := False \<rparr>
      else
        let current = historyIndexRef st;
            pushed = slice0 (historyRef st) (current + 1)
                       @ [\<lparr> nodes = deepCopy newNodes, edges = deepCopy newEdges \<rparr>];
            newHistory = (if length pushed > MAX_HISTORY then tl pushed else pushed)
        in st\<lparr> historyRef := newHistory,
                historyIndexRef := int (length newHistory) - 1 \<rparr>)"

definition undo :: "flow_state \<Rightarrow> error + flow_state" where
  "undo st =
     (let i = historyIndexRef st in
      if i \<le> 0 then Inr st
      else
        let st1 = st\<lparr> isUndoRedoAction := True \<rparr>;
            prevState = index (historyRef st1) (i - 1);
            st2 = st1\<lparr> historyIndexRef := i - 1 \<rparr>
        in case prevState of
             None \<Rightarrow> Inl (TypeError st2)
           | Some p \<Rightarrow>
               Inr (st2\<lparr> nodes := deepCopy (nodes p), edges := deepCopy (edges p),
                         selectedNode := None \<rparr>))"

definition redo :: "flow_state \<Rightarrow> error + flow_state" where
  "redo st =
     (let i = historyIndexRef st in
      if i \<ge> int (length (historyRef st)) - 1 then Inr st
      else
        let st1 = st\<lparr> isUndoRedoAction := True \<rparr>;
            nextState = index (historyRef st1) (i + 1);
            st2 = st1\<lparr> historyIndexRef := i + 1 \<rparr>
        in case nextState of
             None \<Rightarrow> Inl (TypeError st2)
           | Some p \<Rightarrow>
               Inr (st2\<lparr> nodes := deepCopy (nodes p), edges := deepCopy (edges p),
                         selectedNode := None \<rparr>))"

text \<open>A run of commits, and \<open>undo\<close> pressed \<open>n\<close> times (a throw ends the run).\<close>

fun commits :: "(node list \<times> edge list) list \<Rightarrow> flow_state \<Rightarrow> flow_state" where
  "commits [] st = st"
| "commits (c # cs) st = commits cs (pushHistory (fst c) (snd c) st)"

fun undoTimes :: "nat \<Rightarrow> flow_state \<Rightarrow> error + flow_state" where
  "undoTimes 0 st = Inr st"
| "undoTimes (Suc n) st =
     (case undo st of Inl e \<Rightarrow> Inl e | Inr st' \<Rightarrow> undoTimes n st')"

subsection \<open>Connecting\<close>

definition duplicateEdgeToast :: toast where
  "duplicateEdgeToast = \<lparr> severity = Warn,
     message = ''A source handle can only have one outgoing edge.'',
     toast_position = ''top-center'', autoClose = 2500 \<rparr>"

text \<open>
  Modelled from the spec: \<open>addEdge\<close> is the canvas library's function and is not part of
  the sources; the Graph Store contract reads "\<open>addEdge(edge)\<close>: appends without policy
  checks".
\<close>

definition addEdge :: "edge \<Rightarrow> edge list \<Rightarrow> edge list" where
  "addEdge e es = es @ [e]"

text \<open>\<open>{ ...params, animated: true, style: { strokeWidth: 2 } }\<close>\<close>

definition styled :: "connection \<Rightarrow> edge" where
  "styled params = \<lparr> source = source params, sourceHandle = sourceHandle params,
     target = target params, targetHandle = targetHandle params,
     edge_id = None, animated = True, strokeWidth = 2 \<rparr>"

definition onConnect :: "connection \<Rightarrow> flow_state \<Rightarrow> flow_state" where
  "onConnect params st =
     (let sourceHasEdge =
            list_ex (\<lambda>e. source e = source params \<and> sourceHandle e = sourceHandle params)
              (edges st)
      in if sourceHasEdge then notify duplicateEdgeToast st
         else
           let newEdges = addEdge (styled params) (edges st)
           in pushHistory (nodes st) newEdges (st\<lparr> edges := newEdges \<rparr>))"

subsection \<open>Selection and text editing\<close>

definition onNodeClick :: "node \<Rightarrow> flow_state \<Rightarrow> flow_state" where
  "onNodeClick n st = st\<lparr> selectedNode := Some n \<rparr>"

definition onPaneClick :: "flow_state \<Rightarrow> flow_state" where
  "onPaneClick st = st\<lparr> selectedNode := None \<rparr>"

definition onDeselectNode :: "flow_state \<Rightarrow> flow_state" where
  "onDeselectNode st = st\<lparr> selectedNode := None \<rparr>"

text \<open>
  \<open>selectedNode?.id\<close> is \<open>undefined\<close> when nothing is selected, and no node id is
  strictly equal to \<open>undefined\<close>.
\<close>

definition onTextChange :: "string \<Rightarrow> flow_state \<Rightarrow> flow_state" where
  "onTextChange newText st =
     (let sel = map_option node_id (selectedNode st);
          updated = map (\<lambda>n. if Some (node_id n) = sel
                               then n\<lparr> data := (data n)\<lparr> label := newText \<rparr> \<rparr>
                               else n) (nodes st);
          updatedSelected = find (\<lambda>n. Some (node_id n) = sel) updated
      in case updatedSelected of
           Some u \<Rightarrow> st\<lparr> nodes := updated, selectedNode := Some u \<rparr>
         | None \<Rightarrow> st\<lparr> nodes := updated \<rparr>)"

subsection \<open>Dropping a new node\<close>

fun decimal :: "nat \<Rightarrow> string" where
  "decimal n =
     (if n < 10 then [char_of (48 + n)]
      else decimal (n div 10) @ [char_of (48 + n mod 10)])"

declare decimal.simps [simp del]

text \<open>
  The drop event carries the dragged node type (the empty string when there is none) and
  the pointer position; \<open>inst\<close> is the canvas instance's coordinate transform, absent
  until the canvas has initialised; \<open>newId\<close> is what \<open>uuidv4()\<close> returns.
\<close>

definition onDrop ::
  "string \<Rightarrow> (xy_position \<Rightarrow> xy_position) option \<Rightarrow> xy_position \<Rightarrow> string
     \<Rightarrow> flow_state \<Rightarrow> flow_state" where
  "onDrop nodeType inst client newId st =
     (case inst of
        None \<Rightarrow> st
      | Some screenToFlowPosition \<Rightarrow>
          if nodeType = [] then st
          else
            let newNode = \<lparr> node_id = newId, node_type = nodeType,
                  position = screenToFlowPosition client,
                  data = \<lparr> label = ''test message '' @ decimal (length (nodes st) + 1) \<rparr> \<rparr>;
                newNodes = nodes st @ [newNode]
            in pushHistory newNodes (edges st) (st\<lparr> nodes := newNodes \<rparr>))"

subsection \<open>Deleting nodes and edges\<close>

definition hasRemoval :: "change list \<Rightarrow> bool" where
  "hasRemoval changes = list_ex (\<lambda>c. change_type c = ''remove'') changes"

definition removedIds :: "change list \<Rightarrow> string list" where
  "removedIds changes = map change_id (filter (\<lambda>c. change_type c = ''remove'') changes)"

definition remainingNodes :: "string list \<Rightarrow> node list \<Rightarrow> node list" where
  "remainingNodes ids ns = filter (\<lambda>n. \<not> node_id n \<in> set ids) ns"

definition remainingEdges :: "string list \<Rightarrow> edge list \<Rightarrow> edge list" where
  "remainingEdges ids es =
     filter (\<lambda>e. \<not> source e \<in> set ids \<and> \<not> target e \<in> set ids) es"

text \<open>
  \<open>onNodesChange\<close> and \<open>onEdgesChange\<close> are the canvas library's reducers of the live
  lists; they are parameters here. The handlers compute the graph after the removals
  themselves, for the history.
\<close>

definition handleNodesChange ::
  "(change list \<Rightarrow> node list \<Rightarrow> node list) \<Rightarrow> change list \<Rightarrow> flow_state \<Rightarrow> flow_state" where
  "handleNodesChange onNodesChange changes st =
     (let st1 = st\<lparr> nodes := onNodesChange changes (nodes st) \<rparr> in
      if hasRemoval changes then
        let ids = removedIds changes;
            st2 = pushHistory (remainingNodes ids (nodes st)) (remainingEdges ids (edges st)) st1
        in case selectedNode st of
             None \<Rightarrow> st2
           | Some s \<Rightarrow> if node_id s \<in> set ids then st2\<lparr> selectedNode := None \<rparr> else st2
      else st1)"

definition handleEdgesChange ::
  "(change list \<Rightarrow> edge list \<Rightarrow> edge list) \<Rightarrow> change list \<Rightarrow> flow_state \<Rightarrow> flow_state" where
  "handleEdgesChange onEdgesChange changes st =
     (let st1 = st\<lparr> edges := onEdgesChange changes (edges st) \<rparr> in
      if hasRemoval changes then
        let ids = removedIds changes;
            stays = (\<lambda>e. case edge_id e of None \<Rightarrow> True | Some i \<Rightarrow> \<not> i \<in> set ids)
        in pushHistory (nodes st) (filter stays (edges st)) st1
      else st1)"

text \<open>The history entry a commit of \<open>(nodes, edges)\<close> records.\<close>

definition snapshotOf :: "node list \<times> edge list \<Rightarrow> snapshot" where
  "snapshotOf c = \<lparr> nodes = fst c, edges = snd c \<rparr>"

text \<open>The history invariant: the index points into the history, which is within the cap.\<close>

definition history_ok :: "flow_state \<Rightarrow> bool" where
  "history_ok st \<longleftrightarrow>
     0 \<le> historyIndexRef st \<and> historyIndexRef st < int (length (historyRef st))
     \<and> length (historyRef st) \<le> MAX_HISTORY"

text \<open>The three refs of the history engine: entries, index and the undo/redo flag.\<close>

definition refs :: "flow_state \<Rightarrow> snapshot list \<times> int \<times> bool" where
  "refs st = (historyRef st, historyIndexRef st, isUndoRedoAction st)"

subsection \<open>Reachable states\<close>

text \<open>
  Every state the component can be in: the initial one, and what any handler, or a bare
  commit, makes of a reachable one. A handler that throws leaves the state the error
  carries.
\<close>

inductive reachable :: "flow_state \<Rightarrow> bool" where
  r_initial: "reachable initial"
| r_commit: "reachable st \<Longrightarrow> reachable (pushHistory ns es st)"
| r_undo: "reachable st \<Longrightarrow> undo st = Inr st' \<Longrightarrow> reachable st'"
| r_undo_throw: "reachable st \<Longrightarrow> undo st = Inl (TypeError st') \<Longrightarrow> reachable st'"
| r_redo: "reachable st \<Longrightarrow> redo st = Inr st' \<Longrightarrow> reachable st'"
| r_redo_throw: "reachable st \<Longrightarrow> redo st = Inl (TypeError st') \<Longrightarrow> reachable st'"
| r_connect: "reachable st \<Longrightarrow> reachable (onConnect params st)"
| r_drop: "reachable st \<Longrightarrow> reachable (onDrop nodeType inst client newId st)"
| r_nodes_change: "reachable st \<Longrightarrow> reachable (handleNodesChange onNodesChange changes st)"
| r_edges_change: "reachable st \<Longrightarrow> reachable (handleEdgesChange onEdgesChange changes st)"
| r_click: "reachable st \<Longrightarrow> reachable (onNodeClick n st)"
| r_pane: "reachable st \<Longrightarrow> reachable (onPaneClick st)"
| r_deselect: "reachable st \<Longrightarrow> reachable (onDeselectNode st)"
| r_text: "reachable st \<Longrightarrow> reachable (onTextChange newText st)"
| r_save: "reachable st \<Longrightarrow> reachable (onSave st)"

subsection \<open>Example graphs\<close>

definition textNode :: "string \<Rightarrow> node" where
  "textNode i = \<lparr> node_id = i, node_type = ''textNode'',
     position = \<lparr> pos_x = 0, pos_y = 0 \<rparr>, data = \<lparr> label = ''hello'' \<rparr> \<rparr>"

definition link :: "string \<Rightarrow> string \<Rightarrow> connection" where
  "link a b = \<lparr> source = a, sourceHandle = None, target = b, targetHandle = None \<rparr>"

definition graph :: "node list \<Rightarrow> edge list \<Rightarrow> flow_state" where
  "graph ns es = initial\<lparr> nodes := ns, edges := es \<rparr>"

text \<open>Dropping a text node with the given id at the origin of an initialised canvas.\<close>

definition dropNode :: "string \<Rightarrow> flow_state \<Rightarrow> flow_state" where
  "dropNode i st = onDrop ''textNode'' (Some (\<lambda>p. p)) \<lparr> pos_x = 0, pos_y = 0 \<rparr> i st"

definition labelled :: "string \<Rightarrow> string \<Rightarrow> node" where
  "labelled i t = \<lparr> node_id = i, node_type = ''textNode'',
     position = \<lparr> pos_x = 0, pos_y = 0 \<rparr>, data = \<lparr> label = t \<rparr> \<rparr>"




text \<open>Two nodes dropped and the second drop undone.\<close>

definition afterUndo :: flow_state where
  "afterUndo = (dropNode ''B'' (dropNode ''A'' initial))
     \<lparr> nodes := [labelled ''A'' ''test message 1''], historyIndexRef := 1,
        isUndoRedoAction := True \<rparr>"

section \<open>Validation\<close>

lemma toast_distinct:
  "multipleEntryToast \<noteq> savedToast" "emptyFlowToast \<noteq> savedToast"
  "emptyFlowToast \<noteq> multipleEntryToast"
  by (simp_all add: multipleEntryToast_def savedToast_def emptyFlowToast_def)

text \<open>
  C8. Saving with an empty node list reports the empty-flow error whatever the edges
  are, and nothing else: the only change to the state is that one notification, so no
  success is acknowledged and the multiple-entry check is never reached.
\<close>

theorem onSave_empty_flow:
  "onSave (st\<lparr> nodes := [], edges := es \<rparr>)
     = (st\<lparr> nodes := [], edges := es \<rparr>)\<lparr> toasts := toasts st @ [emptyFlowToast] \<rparr>
   \<and> severity emptyFlowToast = Error
   \<and> last (toasts (onSave (st\<lparr> nodes := [], edges := es \<rparr>))) \<noteq> multipleEntryToast
   \<and> last (toasts (onSave (st\<lparr> nodes := [], edges := es \<rparr>))) \<noteq> savedToast"
  by (simp add: onSave_def notify_def toast_distinct) (simp add: emptyFlowToast_def)

lemma notify_eq: "notify t st = notify t' st \<longleftrightarrow> t = t'"
proof
  assume "notify t st = notify t' st"
  then have "toasts (notify t st) = toasts (notify t' st)" by simp
  then show "t = t'" by (simp add: notify_def)
qed simp

text \<open>The set of edge targets the code builds selects the same nodes as the definition.\<close>

lemma unreached_code:
  "filter (\<lambda>n. \<not> (node_id n \<in> set (map target es))) ns = unreached ns es"
  by (simp add: unreached_def list_ex_iff image_iff) metis

text \<open>
  C2. With at least one node, saving reports the multiple-entry-point error exactly when
  more than one node is unreached (is the target of no edge); with one unreached node,
  or none (every node has an incoming edge, as in a cycle), it reports success. The
  empty-flow error is never reported for a non-empty node list.
\<close>

theorem onSave_entry_points:
  "nodes st \<noteq> [] \<Longrightarrow>
     (onSave st = notify multipleEntryToast st
        \<longleftrightarrow> 1 < length (unreached (nodes st) (edges st)))
   \<and> (onSave st = notify savedToast st
        \<longleftrightarrow> length (unreached (nodes st) (edges st)) \<le> 1)
   \<and> onSave st \<noteq> notify emptyFlowToast st"
proof -
  assume ne: "nodes st \<noteq> []"
  have code: "onSave st =
     (if 1 < length (unreached (nodes st) (edges st)) then notify multipleEntryToast st
      else notify savedToast st)"
    using ne unfolding onSave_def Let_def unreached_code by simp
  show ?thesis
    unfolding code using toast_distinct by (auto simp: notify_eq)
qed

text \<open>
  The two-node cycle A\<rightarrow>B, B\<rightarrow>A has no unreached node and saves; three nodes with the
  single edge A\<rightarrow>B have two unreached nodes and are refused.
\<close>

theorem onSave_entry_points_witness:
  "nodes (graph [textNode ''A'', textNode ''B'']
            [styled (link ''A'' ''B''), styled (link ''B'' ''A'')]) \<noteq> []
   \<and> length (unreached [textNode ''A'', textNode ''B'']
               [styled (link ''A'' ''B''), styled (link ''B'' ''A'')]) = 0
   \<and> onSave (graph [textNode ''A'', textNode ''B'']
               [styled (link ''A'' ''B''), styled (link ''B'' ''A'')])
       = notify savedToast (graph [textNode ''A'', textNode ''B'']
               [styled (link ''A'' ''B''), styled (link ''B'' ''A'')])
   \<and> length (unreached [textNode ''A'', textNode ''B'', textNode ''C'']
               [styled (link ''A'' ''B'')]) = 2
   \<and> onSave (graph [textNode ''A'', textNode ''B'', textNode ''C''] [styled (link ''A'' ''B'')])
       = notify multipleEntryToast
           (graph [textNode ''A'', textNode ''B'', textNode ''C''] [styled (link ''A'' ''B'')])"
  using onSave_entry_points [of "graph [textNode ''A'', textNode ''B'']
            [styled (link ''A'' ''B''), styled (link ''B'' ''A'')]"]
    onSave_entry_points [of "graph [textNode ''A'', textNode ''B'', textNode ''C'']
            [styled (link ''A'' ''B'')]"]
  by (simp add: graph_def unreached_def textNode_def styled_def link_def)

section \<open>Connecting\<close>

lemma pushHistory_live [simp]:
  "nodes (pushHistory ns es st) = nodes st"
  "edges (pushHistory ns es st) = edges st"
  "selectedNode (pushHistory ns es st) = selectedNode st"
  "toasts (pushHistory ns es st) = toasts st"
  by (simp_all add: pushHistory_def Let_def)

lemma styled_is_params: "connection.truncate (styled p) = p"
  by (simp add: styled_def connection.truncate_def)

text \<open>
  C1. \<open>onConnect\<close> leaves the edge list as it was exactly when an existing edge has the
  source and source handle of the proposed connection. Then the only change to the state
  is the warning notification (edges, nodes, history, index and flag are untouched).
  Otherwise the edge list is the old one with the proposed edge, styled, at its end, and
  nothing is notified. Targets play no part: a reversed edge, a self-loop and a second
  edge into the same target are accepted.
\<close>

theorem onConnect_single_outgoing:
  "(edges (onConnect p st) = edges st
      \<longleftrightarrow> (\<exists>e \<in> set (edges st). source e = source p \<and> sourceHandle e = sourceHandle p))
   \<and> ((\<exists>e \<in> set (edges st). source e = source p \<and> sourceHandle e = sourceHandle p)
        \<longrightarrow> onConnect p st = st\<lparr> toasts := toasts st @ [duplicateEdgeToast] \<rparr>)
   \<and> (\<not> (\<exists>e \<in> set (edges st). source e = source p \<and> sourceHandle e = sourceHandle p)
        \<longrightarrow> edges (onConnect p st) = edges st @ [styled p]
          \<and> toasts (onConnect p st) = toasts st)
   \<and> connection.truncate (styled p) = p \<and> severity duplicateEdgeToast = Warn"
  by (simp add: onConnect_def Let_def list_ex_iff notify_def addEdge_def styled_is_params)
     (simp add: duplicateEdgeToast_def)

text \<open>
  With the edge A\<rightarrow>B present: A\<rightarrow>C is refused with the warning; the reversed edge B\<rightarrow>A,
  the self-loop B\<rightarrow>B and the second edge into B, C\<rightarrow>B, are appended.
\<close>

theorem onConnect_single_outgoing_witness:
  "(\<exists>e \<in> set [styled (link ''A'' ''B'')]. source e = source (link ''A'' ''C'')
        \<and> sourceHandle e = sourceHandle (link ''A'' ''C''))
   \<and> onConnect (link ''A'' ''C'') (graph [] [styled (link ''A'' ''B'')])
       = (graph [] [styled (link ''A'' ''B'')])\<lparr> toasts := [duplicateEdgeToast] \<rparr>
   \<and> \<not> (\<exists>e \<in> set [styled (link ''A'' ''B'')]. source e = source (link ''B'' ''A'')
        \<and> sourceHandle e = sourceHandle (link ''B'' ''A''))
   \<and> edges (onConnect (link ''B'' ''A'') (graph [] [styled (link ''A'' ''B'')]))
       = [styled (link ''A'' ''B''), styled (link ''B'' ''A'')]
   \<and> edges (onConnect (link ''B'' ''B'') (graph [] [styled (link ''A'' ''B'')]))
       = [styled (link ''A'' ''B''), styled (link ''B'' ''B'')]
   \<and> edges (onConnect (link ''C'' ''B'') (graph [] [styled (link ''A'' ''B'')]))
       = [styled (link ''A'' ''B''), styled (link ''C'' ''B'')]"
  using onConnect_single_outgoing [of "link ''A'' ''C''" "graph [] [styled (link ''A'' ''B'')]"]
    onConnect_single_outgoing [of "link ''B'' ''A''" "graph [] [styled (link ''A'' ''B'')]"]
    onConnect_single_outgoing [of "link ''B'' ''B''" "graph [] [styled (link ''A'' ''B'')]"]
    onConnect_single_outgoing [of "link ''C'' ''B''" "graph [] [styled (link ''A'' ''B'')]"]
  by (simp add: graph_def initial_def styled_def link_def)

section \<open>Text editing\<close>

lemma onTextChange_nodes:
  "nodes (onTextChange t st) =
     map (\<lambda>n. if Some (node_id n) = map_option node_id (selectedNode st)
               then n\<lparr> data := (data n)\<lparr> label := t \<rparr> \<rparr> else n) (nodes st)"
  by (simp add: onTextChange_def Let_def split: option.split)

lemma onTextChange_absent:
  assumes "\<forall>n \<in> set (nodes st). Some (node_id n) \<noteq> map_option node_id (selectedNode st)"
  shows "onTextChange t st = st"
proof -
  let ?sel = "map_option node_id (selectedNode st)"
  let ?f = "\<lambda>n. if Some (node_id n) = ?sel then n\<lparr> data := (data n)\<lparr> label := t \<rparr> \<rparr> else n"
  have m: "map ?f (nodes st) = nodes st"
    using assms by (simp add: map_idI)
  have "find (\<lambda>n. Some (node_id n) = ?sel) (nodes st) = None"
    using assms by (simp add: find_None_iff)
  then show ?thesis
    unfolding onTextChange_def Let_def m by simp
qed

lemma onTextChange_one:
  assumes d: "distinct (map node_id (nodes st))" and i: "i < length (nodes st)"
    and s: "map_option node_id (selectedNode st) = Some (node_id (nodes st ! i))"
  shows "nodes (onTextChange t st)
           = (nodes st)[i := (nodes st ! i)\<lparr> data := (data (nodes st ! i))\<lparr> label := t \<rparr> \<rparr>]"
proof (rule nth_equalityI)
  show "length (nodes (onTextChange t st)) = length ((nodes st)[i := (nodes st ! i)\<lparr> data := (data (nodes st ! i))\<lparr> label := t \<rparr> \<rparr>])"
    by (simp add: onTextChange_nodes)
next
  fix j assume "j < length (nodes (onTextChange t st))"
  then have j: "j < length (nodes st)" by (simp add: onTextChange_nodes)
  have "node_id (nodes st ! j) = node_id (nodes st ! i) \<longleftrightarrow> j = i"
    using d i j nth_eq_iff_index_eq [of "map node_id (nodes st)" j i] by simp
  then show "nodes (onTextChange t st) ! j
      = (nodes st)[i := (nodes st ! i)\<lparr> data := (data (nodes st ! i))\<lparr> label := t \<rparr> \<rparr>] ! j"
    using j i s by (auto simp: onTextChange_nodes nth_list_update)
qed

text \<open>
  C9. Editing the text when no node has the selected node's id (in particular when
  nothing is selected) returns the state as it is; the handler has no failing branch.
  Otherwise the node list keeps its length and order, every node carrying the selected id
  gets the new label in its data and keeps its other fields, and every other node is
  untouched; with unique ids that is the single update of one position. Edges, history
  and notifications are not touched.
\<close>

theorem onTextChange_updates_selected:
  "((\<forall>n \<in> set (nodes st). Some (node_id n) \<noteq> map_option node_id (selectedNode st))
        \<longrightarrow> onTextChange t st = st)
   \<and> (selectedNode st = None \<longrightarrow> onTextChange t st = st)
   \<and> length (nodes (onTextChange t st)) = length (nodes st)
   \<and> (\<forall>i < length (nodes st). nodes (onTextChange t st) ! i =
        (if Some (node_id (nodes st ! i)) = map_option node_id (selectedNode st)
         then (nodes st ! i)\<lparr> data := (data (nodes st ! i))\<lparr> label := t \<rparr> \<rparr>
         else nodes st ! i))
   \<and> (distinct (map node_id (nodes st)) \<and> i < length (nodes st)
        \<and> map_option node_id (selectedNode st) = Some (node_id (nodes st ! i))
        \<longrightarrow> nodes (onTextChange t st)
              = (nodes st)[i := (nodes st ! i)\<lparr> data := (data (nodes st ! i))\<lparr> label := t \<rparr> \<rparr>])
   \<and> edges (onTextChange t st) = edges st
   \<and> historyRef (onTextChange t st) = historyRef st
   \<and> historyIndexRef (onTextChange t st) = historyIndexRef st
   \<and> toasts (onTextChange t st) = toasts st"
proof -
  have a: "selectedNode st = None \<longrightarrow> onTextChange t st = st"
    by (simp add: onTextChange_absent)
  have rest: "edges (onTextChange t st) = edges st
   \<and> historyRef (onTextChange t st) = historyRef st
   \<and> historyIndexRef (onTextChange t st) = historyIndexRef st
   \<and> toasts (onTextChange t st) = toasts st"
    by (simp add: onTextChange_def Let_def split: option.split)
  show ?thesis
    using a rest onTextChange_absent [of st t] onTextChange_one [of st i t]
    by (simp add: onTextChange_nodes)
qed

text \<open>
  Nothing selected, a selected node that is no longer in the list, and the selected node B.
\<close>

theorem onTextChange_updates_selected_witness:
  "selectedNode ((graph [textNode ''A'', textNode ''B''] [])) = None
   \<and> onTextChange ''bye'' (graph [textNode ''A'', textNode ''B''] [])
       = graph [textNode ''A'', textNode ''B''] []
   \<and> ''Z'' \<notin> set (map node_id [textNode ''A'', textNode ''B''])
   \<and> onTextChange ''bye''
        ((graph [textNode ''A'', textNode ''B''] [])\<lparr> selectedNode := Some (textNode ''Z'') \<rparr>)
       = (graph [textNode ''A'', textNode ''B''] [])\<lparr> selectedNode := Some (textNode ''Z'') \<rparr>
   \<and> distinct (map node_id [textNode ''A'', textNode ''B''])
   \<and> nodes (onTextChange ''bye''
        ((graph [textNode ''A'', textNode ''B''] [])\<lparr> selectedNode := Some (textNode ''B'') \<rparr>))
       = [textNode ''A'', (textNode ''B'')\<lparr> data := \<lparr> label = ''bye'' \<rparr> \<rparr>]"
  using onTextChange_updates_selected [of "graph [textNode ''A'', textNode ''B''] []" "''bye''" 0]
    onTextChange_updates_selected [of
      "(graph [textNode ''A'', textNode ''B''] [])\<lparr> selectedNode := Some (textNode ''Z'') \<rparr>"
      "''bye''" 0]
    onTextChange_updates_selected [of
      "(graph [textNode ''A'', textNode ''B''] [])\<lparr> selectedNode := Some (textNode ''B'') \<rparr>"
      "''bye''" 1]
  by (simp add: graph_def initial_def textNode_def)

section \<open>Deleting nodes\<close>


lemma pushHistory_records:
  assumes "\<not> isUndoRedoAction st"
  shows "last (historyRef (pushHistory ns es st)) = \<lparr> nodes = ns, edges = es \<rparr>"
    and "historyIndexRef (pushHistory ns es st) = int (length (historyRef (pushHistory ns es st))) - 1"
    and "historyRef (pushHistory ns es st) \<noteq> []"
proof -
  let ?pushed = "slice0 (historyRef st) (historyIndexRef st + 1) @ [\<lparr> nodes = ns, edges = es \<rparr>]"
  let ?new = "if length ?pushed > MAX_HISTORY then tl ?pushed else ?pushed"
  have h: "historyRef (pushHistory ns es st) = ?new"
    using assms by (simp add: pushHistory_def Let_def deepCopy_def)
  have ne: "?new \<noteq> []"
    by (cases "slice0 (historyRef st) (historyIndexRef st + 1)") (auto simp: MAX_HISTORY_def)
  have "last ?new = last ?pushed"
    by (cases "slice0 (historyRef st) (historyIndexRef st + 1)") (auto simp: MAX_HISTORY_def)
  then show "last (historyRef (pushHistory ns es st)) = \<lparr> nodes = ns, edges = es \<rparr>"
    unfolding h by simp
  show "historyIndexRef (pushHistory ns es st) = int (length (historyRef (pushHistory ns es st))) - 1"
    using assms by (simp add: pushHistory_def Let_def)
  show "historyRef (pushHistory ns es st) \<noteq> []"
    unfolding h by (rule ne)
qed


lemma handleNodesChange_history:
  "hasRemoval changes \<Longrightarrow>
   historyRef (handleNodesChange r changes st) =
     historyRef (pushHistory (remainingNodes (removedIds changes) (nodes st))
                   (remainingEdges (removedIds changes) (edges st)) st)
   \<and> historyIndexRef (handleNodesChange r changes st) =
     historyIndexRef (pushHistory (remainingNodes (removedIds changes) (nodes st))
                   (remainingEdges (removedIds changes) (edges st)) st)"
  by (simp add: handleNodesChange_def Let_def pushHistory_def split: option.split)






section \<open>Undo and redo\<close>

lemma index_in: "0 \<le> i \<Longrightarrow> i < int (length xs) \<Longrightarrow> index xs i = Some (xs ! nat i)"
  by (simp add: index_def)

text \<open>
  C6. \<open>undo\<close> with the index at 0 and \<open>redo\<close> with the index at the last entry return
  the state as it is, without an error or a notification. Otherwise, in a state that
  satisfies the history invariant, \<open>undo\<close> moves the index down by one and \<open>redo\<close> up by
  one, the live nodes and edges become those of the entry at the new index, the selection
  is cleared and the flag is set. Whatever the outcome, the history holds the same entries
  afterwards and nothing is notified.
\<close>

theorem undo_redo_move_cursor:
  "(historyIndexRef st \<le> 0 \<longrightarrow> undo st = Inr st)
   \<and> (historyIndexRef st \<ge> int (length (historyRef st)) - 1 \<longrightarrow> redo st = Inr st)
   \<and> (history_ok st \<and> 0 < historyIndexRef st \<longrightarrow>
        undo st = Inr (st\<lparr> nodes := nodes (historyRef st ! nat (historyIndexRef st - 1)),
                          edges := edges (historyRef st ! nat (historyIndexRef st - 1)),
                          selectedNode := None,
                          historyIndexRef := historyIndexRef st - 1,
                          isUndoRedoAction := True \<rparr>))
   \<and> (history_ok st \<and> historyIndexRef st < int (length (historyRef st)) - 1 \<longrightarrow>
        redo st = Inr (st\<lparr> nodes := nodes (historyRef st ! nat (historyIndexRef st + 1)),
                          edges := edges (historyRef st ! nat (historyIndexRef st + 1)),
                          selectedNode := None,
                          historyIndexRef := historyIndexRef st + 1,
                          isUndoRedoAction := True \<rparr>))
   \<and> (\<forall>st'. undo st = Inr st' \<or> undo st = Inl (TypeError st') \<or> redo st = Inr st'
            \<or> redo st = Inl (TypeError st') \<longrightarrow> historyRef st' = historyRef st \<and> toasts st' = toasts st)"
proof -
  have u0: "historyIndexRef st \<le> 0 \<longrightarrow> undo st = Inr st"
    by (simp add: undo_def)
  have r0: "historyIndexRef st \<ge> int (length (historyRef st)) - 1 \<longrightarrow> redo st = Inr st"
    by (simp add: redo_def)
  have u1: "history_ok st \<and> 0 < historyIndexRef st \<longrightarrow>
        undo st = Inr (st\<lparr> nodes := nodes (historyRef st ! nat (historyIndexRef st - 1)),
                          edges := edges (historyRef st ! nat (historyIndexRef st - 1)),
                          selectedNode := None,
                          historyIndexRef := historyIndexRef st - 1,
                          isUndoRedoAction := True \<rparr>)"
    by (simp add: undo_def Let_def history_ok_def index_in deepCopy_def)
  have r1: "history_ok st \<and> historyIndexRef st < int (length (historyRef st)) - 1 \<longrightarrow>
        redo st = Inr (st\<lparr> nodes := nodes (historyRef st ! nat (historyIndexRef st + 1)),
                          edges := edges (historyRef st ! nat (historyIndexRef st + 1)),
                          selectedNode := None,
                          historyIndexRef := historyIndexRef st + 1,
                          isUndoRedoAction := True \<rparr>)"
    by (simp add: redo_def Let_def history_ok_def index_in deepCopy_def)
  have k: "\<forall>st'. undo st = Inr st' \<or> undo st = Inl (TypeError st') \<or> redo st = Inr st'
            \<or> redo st = Inl (TypeError st') \<longrightarrow> historyRef st' = historyRef st \<and> toasts st' = toasts st"
    by (auto simp: undo_def redo_def Let_def split: if_splits option.splits)
  show ?thesis using u0 r0 u1 r1 k by blast
qed


lemma decimal_1_2: "decimal (Suc 0) = ''1''" "decimal 2 = ''2''"
  by code_simp+

text \<open>
  Two nodes dropped, B selected: \<open>redo\<close> does nothing and \<open>undo\<close> returns to the graph
  with A alone, selection cleared; from there \<open>redo\<close> brings both nodes back. In the
  initial state \<open>undo\<close> does nothing.
\<close>

theorem undo_redo_move_cursor_witness:
  "historyIndexRef initial \<le> 0 \<and> undo initial = Inr initial
   \<and> redo (onNodeClick (labelled ''B'' ''test message 2'') (dropNode ''B'' (dropNode ''A'' initial)))
       = Inr (onNodeClick (labelled ''B'' ''test message 2'') (dropNode ''B'' (dropNode ''A'' initial)))
   \<and> history_ok (onNodeClick (labelled ''B'' ''test message 2'') (dropNode ''B'' (dropNode ''A'' initial)))
   \<and> undo (onNodeClick (labelled ''B'' ''test message 2'') (dropNode ''B'' (dropNode ''A'' initial)))
       = Inr ((dropNode ''B'' (dropNode ''A'' initial))
                \<lparr> nodes := [labelled ''A'' ''test message 1''], historyIndexRef := 1,
                   isUndoRedoAction := True \<rparr>)
   \<and> redo ((dropNode ''B'' (dropNode ''A'' initial))
                \<lparr> nodes := [labelled ''A'' ''test message 1''], historyIndexRef := 1,
                   isUndoRedoAction := True \<rparr>)
       = Inr ((dropNode ''B'' (dropNode ''A'' initial))\<lparr> isUndoRedoAction := True \<rparr>)"
  using undo_redo_move_cursor [of initial, THEN conjunct1]
    undo_redo_move_cursor [of
      "onNodeClick (labelled ''B'' ''test message 2'') (dropNode ''B'' (dropNode ''A'' initial))",
      THEN conjunct2, THEN conjunct1]
    undo_redo_move_cursor [of
      "onNodeClick (labelled ''B'' ''test message 2'') (dropNode ''B'' (dropNode ''A'' initial))",
      THEN conjunct2, THEN conjunct2, THEN conjunct1]
    undo_redo_move_cursor [of
      "(dropNode ''B'' (dropNode ''A'' initial))
                \<lparr> nodes := [labelled ''A'' ''test message 1''], historyIndexRef := 1,
                   isUndoRedoAction := True \<rparr>",
      THEN conjunct2, THEN conjunct2, THEN conjunct2, THEN conjunct1]
  by (simp add: history_ok_def MAX_HISTORY_def dropNode_def onDrop_def pushHistory_def Let_def
        slice0_def deepCopy_def initial_def onNodeClick_def labelled_def decimal_1_2)

section \<open>The undo/redo flag\<close>

lemma pushHistory_disarms: "\<not> isUndoRedoAction (pushHistory ns es st)"
  by (simp add: pushHistory_def Let_def)

lemma pushHistory_flag_kept:
  "isUndoRedoAction (pushHistory ns es (st\<lparr> nodes := a \<rparr>)) = isUndoRedoAction (pushHistory ns es st)"
  "isUndoRedoAction (pushHistory ns es (st\<lparr> edges := b \<rparr>)) = isUndoRedoAction (pushHistory ns es st)"
  by (simp_all add: pushHistory_def Let_def)

lemma handlers_keep_disarmed:
  assumes "\<not> isUndoRedoAction st"
  shows "\<not> isUndoRedoAction (onConnect p st)"
    and "\<not> isUndoRedoAction (onDrop ty inst c i st)"
    and "\<not> isUndoRedoAction (handleNodesChange r1 cs st)"
    and "\<not> isUndoRedoAction (handleEdgesChange r2 cs st)"
    and "\<not> isUndoRedoAction (onTextChange t st)"
    and "\<not> isUndoRedoAction (onNodeClick n st)"
    and "\<not> isUndoRedoAction (onPaneClick st)"
    and "\<not> isUndoRedoAction (onDeselectNode st)"
    and "\<not> isUndoRedoAction (onSave st)"
  using assms
  by (simp_all add: onConnect_def onDrop_def handleNodesChange_def handleEdgesChange_def
        onTextChange_def onNodeClick_def onPaneClick_def onDeselectNode_def onSave_def
        notify_def Let_def pushHistory_disarms split: option.split)

lemma undo_arms:
  "0 < historyIndexRef st \<Longrightarrow> undo st = Inr st' \<or> undo st = Inl (TypeError st')
     \<Longrightarrow> isUndoRedoAction st'"
  by (auto simp: undo_def Let_def split: option.splits)

lemma redo_arms:
  "historyIndexRef st < int (length (historyRef st)) - 1
     \<Longrightarrow> redo st = Inr st' \<or> redo st = Inl (TypeError st') \<Longrightarrow> isUndoRedoAction st'"
  by (auto simp: redo_def Let_def split: option.splits)

lemma pushHistory_suppressed:
  "isUndoRedoAction st \<Longrightarrow> pushHistory ns es st = st\<lparr> isUndoRedoAction := False \<rparr>"
  by (simp add: pushHistory_def)


lemma undo_redo_keep_history:
  "undo st = Inr st' \<or> redo st = Inr st' \<Longrightarrow> historyRef st' = historyRef st"
  by (auto simp: undo_def redo_def Let_def split: if_splits option.splits)

lemma decimal_2_3: "decimal (Suc (Suc 0)) = ''2''" "decimal (Suc (Suc (Suc 0))) = ''3''"
  by code_simp+

text \<open>Handlers that never reach \<open>pushHistory\<close> leave the three refs alone.\<close>

lemma quiet_handlers:
  "refs (onNodeClick n st) = refs st"
  "refs (onPaneClick st) = refs st"
  "refs (onDeselectNode st) = refs st"
  "refs (onTextChange t st) = refs st"
  "refs (onSave st) = refs st"
  by (simp_all add: refs_def onNodeClick_def onPaneClick_def onDeselectNode_def
        onTextChange_def onSave_def notify_def Let_def split: option.split)

text \<open>The branches of the committing handlers that return before \<open>pushHistory\<close>.\<close>

lemma quiet_branches:
  "(\<exists>e \<in> set (edges st). source e = source p \<and> sourceHandle e = sourceHandle p)
     \<Longrightarrow> refs (onConnect p st) = refs st"
  "inst = None \<or> ty = [] \<Longrightarrow> onDrop ty inst c i st = st"
  "\<not> hasRemoval cs \<Longrightarrow> refs (handleNodesChange r1 cs st) = refs st"
  "\<not> hasRemoval cs \<Longrightarrow> refs (handleEdgesChange r2 cs st) = refs st"
  by (auto simp: refs_def onConnect_def onDrop_def handleNodesChange_def handleEdgesChange_def
        notify_def Let_def list_ex_iff split: option.split)

text \<open>The committing branches as calls of \<open>pushHistory\<close>.\<close>

lemma onConnect_commits:
  "\<not> (\<exists>e \<in> set (edges st). source e = source p \<and> sourceHandle e = sourceHandle p)
     \<Longrightarrow> onConnect p st = pushHistory (nodes st) (edges st @ [styled p])
                             (st\<lparr> edges := edges st @ [styled p] \<rparr>)"
  by (auto simp: onConnect_def addEdge_def Let_def list_ex_iff)

lemma onDrop_commits:
  "ty \<noteq> [] \<Longrightarrow> onDrop ty (Some f) c i st
     = pushHistory (nodes st @ [\<lparr> node_id = i, node_type = ty, position = f c,
                      data = \<lparr> label = ''test message '' @ decimal (length (nodes st) + 1) \<rparr> \<rparr>]) (edges st)
         (st\<lparr> nodes := nodes st @ [\<lparr> node_id = i, node_type = ty, position = f c,
                      data = \<lparr> label = ''test message '' @ decimal (length (nodes st) + 1) \<rparr> \<rparr>] \<rparr>)"
  by (simp add: onDrop_def Let_def)

lemma handleNodesChange_commits:
  "hasRemoval cs \<Longrightarrow> refs (handleNodesChange r1 cs st)
     = refs (pushHistory (remainingNodes (removedIds cs) (nodes st))
               (remainingEdges (removedIds cs) (edges st)) st)"
  by (simp add: refs_def handleNodesChange_def Let_def pushHistory_def split: option.split)

lemma handleEdgesChange_commits:
  "hasRemoval cs \<Longrightarrow> handleEdgesChange r2 cs st
     = pushHistory (nodes st)
         (filter (\<lambda>e. case edge_id e of None \<Rightarrow> True | Some j \<Rightarrow> j \<notin> set (removedIds cs))
            (edges st))
         (st\<lparr> edges := r2 cs (edges st) \<rparr>)"
  by (simp add: handleEdgesChange_def Let_def)

lemma undo_redo_keep_armed:
  "isUndoRedoAction st \<Longrightarrow>
     undo st = Inr st' \<or> undo st = Inl (TypeError st') \<or> redo st = Inr st'
       \<or> redo st = Inl (TypeError st') \<Longrightarrow> isUndoRedoAction st'"
  by (auto simp: undo_def redo_def Let_def split: if_splits option.splits)

text \<open>
  C5. A commit always leaves the flag cleared, and no handler other than \<open>undo\<close> and
  \<open>redo\<close> sets it: from a state with the flag cleared, every one of them ends with the
  flag cleared. With the flag set, a commit changes nothing but the flag, which it
  clears, and the commit after that one is recorded as the last entry. An \<open>undo\<close> or
  \<open>redo\<close> that moves the index sets the flag and leaves the history as it was, and so
  does the commit that follows it.

  The flag, once set, stays set until a commit: a click on a node or on the pane, a
  deselect, a text edit, a save, a refused connection, an ignored drop, a change list
  without a removal, and \<open>undo\<close> and \<open>redo\<close> themselves all leave it set, and the first
  four kinds leave history and index alone too. The first handler that does reach
  \<open>pushHistory\<close> (an accepted connection, a drop, node or edge changes with a removal)
  then leaves history and index as they were and clears the flag; with the flag cleared
  the same handlers record their graph as the last entry, at the index.
\<close>

theorem guard_single_use:
  "\<not> isUndoRedoAction (pushHistory ns es st)
   \<and> (\<not> isUndoRedoAction st \<longrightarrow>
        \<not> isUndoRedoAction (onConnect p st)
        \<and> \<not> isUndoRedoAction (onDrop ty inst c i st)
        \<and> \<not> isUndoRedoAction (handleNodesChange r1 cs st)
        \<and> \<not> isUndoRedoAction (handleEdgesChange r2 cs st)
        \<and> \<not> isUndoRedoAction (onTextChange t st)
        \<and> \<not> isUndoRedoAction (onNodeClick n st)
        \<and> \<not> isUndoRedoAction (onPaneClick st)
        \<and> \<not> isUndoRedoAction (onDeselectNode st)
        \<and> \<not> isUndoRedoAction (onSave st))
   \<and> (isUndoRedoAction st \<longrightarrow>
        pushHistory ns es st = st\<lparr> isUndoRedoAction := False \<rparr>
        \<and> last (historyRef (pushHistory ns' es' (pushHistory ns es st)))
            = \<lparr> nodes = ns', edges = es' \<rparr>
        \<and> historyIndexRef (pushHistory ns' es' (pushHistory ns es st))
            = int (length (historyRef (pushHistory ns' es' (pushHistory ns es st)))) - 1)
   \<and> (\<forall>st'. (0 < historyIndexRef st \<and> undo st = Inr st')
             \<or> (historyIndexRef st < int (length (historyRef st)) - 1 \<and> redo st = Inr st')
          \<longrightarrow> isUndoRedoAction st' \<and> historyRef st' = historyRef st
              \<and> pushHistory ns es st' = st'\<lparr> isUndoRedoAction := False \<rparr>)
   \<and> (refs (onNodeClick n st) = refs st \<and> refs (onPaneClick st) = refs st
        \<and> refs (onDeselectNode st) = refs st \<and> refs (onTextChange t st) = refs st
        \<and> refs (onSave st) = refs st)
   \<and> (((\<exists>e \<in> set (edges st). source e = source p \<and> sourceHandle e = sourceHandle p)
          \<longrightarrow> refs (onConnect p st) = refs st)
        \<and> (inst = None \<or> ty = [] \<longrightarrow> onDrop ty inst c i st = st)
        \<and> (\<not> hasRemoval cs \<longrightarrow> refs (handleNodesChange r1 cs st) = refs st
              \<and> refs (handleEdgesChange r2 cs st) = refs st))
   \<and> (isUndoRedoAction st \<longrightarrow>
        (\<forall>st'. undo st = Inr st' \<or> undo st = Inl (TypeError st') \<or> redo st = Inr st'
              \<or> redo st = Inl (TypeError st') \<longrightarrow> isUndoRedoAction st')
        \<and> (\<not> (\<exists>e \<in> set (edges st). source e = source p \<and> sourceHandle e = sourceHandle p)
              \<longrightarrow> refs (onConnect p st) = (historyRef st, historyIndexRef st, False))
        \<and> (ty \<noteq> [] \<longrightarrow>
              refs (onDrop ty (Some f) c i st) = (historyRef st, historyIndexRef st, False))
        \<and> (hasRemoval cs \<longrightarrow>
              refs (handleNodesChange r1 cs st) = (historyRef st, historyIndexRef st, False)
              \<and> refs (handleEdgesChange r2 cs st)
                  = (historyRef st, historyIndexRef st, False)))
   \<and> (\<not> isUndoRedoAction st \<longrightarrow>
        (\<not> (\<exists>e \<in> set (edges st). source e = source p \<and> sourceHandle e = sourceHandle p)
              \<longrightarrow> last (historyRef (onConnect p st))
                    = \<lparr> nodes = nodes st, edges = edges st @ [styled p] \<rparr>
                \<and> historyIndexRef (onConnect p st)
                    = int (length (historyRef (onConnect p st))) - 1)
        \<and> (ty \<noteq> [] \<longrightarrow>
              last (historyRef (onDrop ty (Some f) c i st))
                = \<lparr> nodes = nodes st @ [\<lparr> node_id = i, node_type = ty, position = f c,
                      data = \<lparr> label = ''test message '' @ decimal (length (nodes st) + 1) \<rparr> \<rparr>],
                     edges = edges st \<rparr>
              \<and> historyIndexRef (onDrop ty (Some f) c i st)
                  = int (length (historyRef (onDrop ty (Some f) c i st))) - 1)
        \<and> (hasRemoval cs \<longrightarrow>
              last (historyRef (handleNodesChange r1 cs st))
                = \<lparr> nodes = remainingNodes (removedIds cs) (nodes st),
                     edges = remainingEdges (removedIds cs) (edges st) \<rparr>
              \<and> historyIndexRef (handleNodesChange r1 cs st)
                  = int (length (historyRef (handleNodesChange r1 cs st))) - 1
              \<and> last (historyRef (handleEdgesChange r2 cs st))
                = \<lparr> nodes = nodes st,
                     edges = filter (\<lambda>e. case edge_id e of None \<Rightarrow> True
                                          | Some j \<Rightarrow> j \<notin> set (removedIds cs)) (edges st) \<rparr>
              \<and> historyIndexRef (handleEdgesChange r2 cs st)
                  = int (length (historyRef (handleEdgesChange r2 cs st))) - 1))"
proof -
  let ?dup = "\<exists>e \<in> set (edges st). source e = source p \<and> sourceHandle e = sourceHandle p"
  have a: "\<not> isUndoRedoAction (pushHistory ns es st)"
    by (rule pushHistory_disarms)
  have b: "\<not> isUndoRedoAction st \<longrightarrow>
        \<not> isUndoRedoAction (onConnect p st)
        \<and> \<not> isUndoRedoAction (onDrop ty inst c i st)
        \<and> \<not> isUndoRedoAction (handleNodesChange r1 cs st)
        \<and> \<not> isUndoRedoAction (handleEdgesChange r2 cs st)
        \<and> \<not> isUndoRedoAction (onTextChange t st)
        \<and> \<not> isUndoRedoAction (onNodeClick n st)
        \<and> \<not> isUndoRedoAction (onPaneClick st)
        \<and> \<not> isUndoRedoAction (onDeselectNode st)
        \<and> \<not> isUndoRedoAction (onSave st)"
    using handlers_keep_disarmed [of st] by blast
  have c: "isUndoRedoAction st \<longrightarrow>
        pushHistory ns es st = st\<lparr> isUndoRedoAction := False \<rparr>
        \<and> last (historyRef (pushHistory ns' es' (pushHistory ns es st)))
            = \<lparr> nodes = ns', edges = es' \<rparr>
        \<and> historyIndexRef (pushHistory ns' es' (pushHistory ns es st))
            = int (length (historyRef (pushHistory ns' es' (pushHistory ns es st)))) - 1"
    using pushHistory_records(1,2) [OF a, of ns' es'] pushHistory_suppressed [of st ns es]
    by blast
  have d: "\<forall>st'. (0 < historyIndexRef st \<and> undo st = Inr st')
             \<or> (historyIndexRef st < int (length (historyRef st)) - 1 \<and> redo st = Inr st')
          \<longrightarrow> isUndoRedoAction st' \<and> historyRef st' = historyRef st
              \<and> pushHistory ns es st' = st'\<lparr> isUndoRedoAction := False \<rparr>"
  proof (intro allI impI)
    fix st'
    assume h: "(0 < historyIndexRef st \<and> undo st = Inr st')
             \<or> (historyIndexRef st < int (length (historyRef st)) - 1 \<and> redo st = Inr st')"
    then have armed: "isUndoRedoAction st'"
      using undo_arms [of st st'] redo_arms [of st st'] by blast
    moreover have "historyRef st' = historyRef st"
      using h undo_redo_keep_history [of st st'] by blast
    ultimately show "isUndoRedoAction st' \<and> historyRef st' = historyRef st
              \<and> pushHistory ns es st' = st'\<lparr> isUndoRedoAction := False \<rparr>"
      by (simp add: pushHistory_suppressed)
  qed
  have e: "refs (onNodeClick n st) = refs st \<and> refs (onPaneClick st) = refs st
        \<and> refs (onDeselectNode st) = refs st \<and> refs (onTextChange t st) = refs st
        \<and> refs (onSave st) = refs st"
    by (simp add: quiet_handlers)
  have f: "(?dup \<longrightarrow> refs (onConnect p st) = refs st)
        \<and> (inst = None \<or> ty = [] \<longrightarrow> onDrop ty inst c i st = st)
        \<and> (\<not> hasRemoval cs \<longrightarrow> refs (handleNodesChange r1 cs st) = refs st
              \<and> refs (handleEdgesChange r2 cs st) = refs st)"
    using quiet_branches(1) [of st p] quiet_branches(2) [of inst ty c i st]
      quiet_branches(3) [of cs r1 st] quiet_branches(4) [of cs r2 st] by blast
  have g: "isUndoRedoAction st \<longrightarrow>
        (\<forall>st'. undo st = Inr st' \<or> undo st = Inl (TypeError st') \<or> redo st = Inr st'
              \<or> redo st = Inl (TypeError st') \<longrightarrow> isUndoRedoAction st')
        \<and> (\<not> ?dup \<longrightarrow> refs (onConnect p st) = (historyRef st, historyIndexRef st, False))
        \<and> (ty \<noteq> [] \<longrightarrow>
              refs (onDrop ty (Some f) c i st) = (historyRef st, historyIndexRef st, False))
        \<and> (hasRemoval cs \<longrightarrow>
              refs (handleNodesChange r1 cs st) = (historyRef st, historyIndexRef st, False)
              \<and> refs (handleEdgesChange r2 cs st)
                  = (historyRef st, historyIndexRef st, False))"
  proof (intro impI conjI allI)
    fix st'
    assume "isUndoRedoAction st"
      and "undo st = Inr st' \<or> undo st = Inl (TypeError st') \<or> redo st = Inr st'
              \<or> redo st = Inl (TypeError st')"
    then show "isUndoRedoAction st'" by (rule undo_redo_keep_armed)
  next
    assume "isUndoRedoAction st" and "\<not> ?dup"
    then show "refs (onConnect p st) = (historyRef st, historyIndexRef st, False)"
      by (simp add: onConnect_commits pushHistory_suppressed refs_def)
  next
    assume "isUndoRedoAction st" and "ty \<noteq> []"
    then show "refs (onDrop ty (Some f) c i st) = (historyRef st, historyIndexRef st, False)"
      by (simp add: onDrop_def Let_def pushHistory_suppressed refs_def)
  next
    assume "isUndoRedoAction st" and "hasRemoval cs"
    then show "refs (handleNodesChange r1 cs st) = (historyRef st, historyIndexRef st, False)"
      by (simp add: handleNodesChange_commits pushHistory_suppressed) (simp add: refs_def)
  next
    assume "isUndoRedoAction st" and "hasRemoval cs"
    then show "refs (handleEdgesChange r2 cs st) = (historyRef st, historyIndexRef st, False)"
      by (simp add: handleEdgesChange_commits pushHistory_suppressed refs_def)
  qed
  have h: "\<not> isUndoRedoAction st \<longrightarrow>
        (\<not> ?dup \<longrightarrow> last (historyRef (onConnect p st))
                    = \<lparr> nodes = nodes st, edges = edges st @ [styled p] \<rparr>
                \<and> historyIndexRef (onConnect p st)
                    = int (length (historyRef (onConnect p st))) - 1)
        \<and> (ty \<noteq> [] \<longrightarrow>
              last (historyRef (onDrop ty (Some f) c i st))
                = \<lparr> nodes = nodes st @ [\<lparr> node_id = i, node_type = ty, position = f c,
                      data = \<lparr> label = ''test message '' @ decimal (length (nodes st) + 1) \<rparr> \<rparr>],
                     edges = edges st \<rparr>
              \<and> historyIndexRef (onDrop ty (Some f) c i st)
                  = int (length (historyRef (onDrop ty (Some f) c i st))) - 1)
        \<and> (hasRemoval cs \<longrightarrow>
              last (historyRef (handleNodesChange r1 cs st))
                = \<lparr> nodes = remainingNodes (removedIds cs) (nodes st),
                     edges = remainingEdges (removedIds cs) (edges st) \<rparr>
              \<and> historyIndexRef (handleNodesChange r1 cs st)
                  = int (length (historyRef (handleNodesChange r1 cs st))) - 1
              \<and> last (historyRef (handleEdgesChange r2 cs st))
                = \<lparr> nodes = nodes st,
                     edges = filter (\<lambda>e. case edge_id e of None \<Rightarrow> True
                                          | Some j \<Rightarrow> j \<notin> set (removedIds cs)) (edges st) \<rparr>
              \<and> historyIndexRef (handleEdgesChange r2 cs st)
                  = int (length (historyRef (handleEdgesChange r2 cs st))) - 1)"
  proof (intro impI conjI)
    assume na: "\<not> isUndoRedoAction st" and "\<not> ?dup"
    then have eq: "onConnect p st = pushHistory (nodes st) (edges st @ [styled p])
                             (st\<lparr> edges := edges st @ [styled p] \<rparr>)"
      by (simp add: onConnect_commits)
    have na': "\<not> isUndoRedoAction (st\<lparr> edges := edges st @ [styled p] \<rparr>)"
      using na by simp
    show "last (historyRef (onConnect p st))
            = \<lparr> nodes = nodes st, edges = edges st @ [styled p] \<rparr>"
      unfolding eq by (rule pushHistory_records(1) [OF na'])
    show "historyIndexRef (onConnect p st) = int (length (historyRef (onConnect p st))) - 1"
      unfolding eq by (rule pushHistory_records(2) [OF na'])
  next
    assume na: "\<not> isUndoRedoAction st" and ty: "ty \<noteq> []"
    let ?ns = "nodes st @ [\<lparr> node_id = i, node_type = ty, position = f c,
                      data = \<lparr> label = ''test message '' @ decimal (length (nodes st) + 1) \<rparr> \<rparr>]"
    have na': "\<not> isUndoRedoAction (st\<lparr> nodes := ?ns \<rparr>)"
      using na by simp
    show "last (historyRef (onDrop ty (Some f) c i st)) = \<lparr> nodes = ?ns, edges = edges st \<rparr>"
      unfolding onDrop_commits [OF ty] by (rule pushHistory_records(1) [OF na'])
    show "historyIndexRef (onDrop ty (Some f) c i st)
                  = int (length (historyRef (onDrop ty (Some f) c i st))) - 1"
      unfolding onDrop_commits [OF ty] by (rule pushHistory_records(2) [OF na'])
  next
    assume na: "\<not> isUndoRedoAction st" and rm: "hasRemoval cs"
    show "last (historyRef (handleNodesChange r1 cs st))
                = \<lparr> nodes = remainingNodes (removedIds cs) (nodes st),
                     edges = remainingEdges (removedIds cs) (edges st) \<rparr>"
      using pushHistory_records(1) [OF na] rm by (simp add: handleNodesChange_history)
    show "historyIndexRef (handleNodesChange r1 cs st)
                  = int (length (historyRef (handleNodesChange r1 cs st))) - 1"
      using pushHistory_records(2) [OF na] rm by (simp add: handleNodesChange_history)
    have na': "\<not> isUndoRedoAction (st\<lparr> edges := r2 cs (edges st) \<rparr>)"
      using na by simp
    show "last (historyRef (handleEdgesChange r2 cs st))
                = \<lparr> nodes = nodes st,
                     edges = filter (\<lambda>e. case edge_id e of None \<Rightarrow> True
                                          | Some j \<Rightarrow> j \<notin> set (removedIds cs)) (edges st) \<rparr>"
      unfolding handleEdgesChange_commits [OF rm] by (rule pushHistory_records(1) [OF na'])
    show "historyIndexRef (handleEdgesChange r2 cs st)
                  = int (length (historyRef (handleEdgesChange r2 cs st))) - 1"
      unfolding handleEdgesChange_commits [OF rm] by (rule pushHistory_records(2) [OF na'])
  qed
  show ?thesis
    by (intro conjI a b c d e [THEN conjunct1] e [THEN conjunct2, THEN conjunct1]
          e [THEN conjunct2, THEN conjunct2, THEN conjunct1]
          e [THEN conjunct2, THEN conjunct2, THEN conjunct2, THEN conjunct1]
          e [THEN conjunct2, THEN conjunct2, THEN conjunct2, THEN conjunct2] f g h)
qed



text \<open>
  After two drops and an \<open>undo\<close> the flag is set: the commit of C is swallowed, the
  commit of D is recorded (and replaces the undone entry). A click on the pane, a click
  on a node, a text edit and a save in between leave the flag set, and the first drop
  after them is the one swallowed: the history is as \<open>undo\<close> left it, though the live
  node list has the new node; the drop after that is recorded.
\<close>

theorem guard_single_use_witness:
  "\<not> isUndoRedoAction (dropNode ''B'' (dropNode ''A'' initial))
   \<and> undo (dropNode ''B'' (dropNode ''A'' initial)) = Inr afterUndo
   \<and> isUndoRedoAction afterUndo
   \<and> pushHistory [labelled ''C'' ''c''] [] afterUndo = afterUndo\<lparr> isUndoRedoAction := False \<rparr>
   \<and> historyRef (pushHistory [labelled ''D'' ''d''] []
        (pushHistory [labelled ''C'' ''c''] [] afterUndo))
       = [\<lparr> nodes = [], edges = [] \<rparr>,
          \<lparr> nodes = [labelled ''A'' ''test message 1''], edges = [] \<rparr>,
          \<lparr> nodes = [labelled ''D'' ''d''], edges = [] \<rparr>]
   \<and> isUndoRedoAction
        (onSave (onTextChange ''x'' (onNodeClick (labelled ''A'' ''test message 1'')
           (onPaneClick afterUndo))))
   \<and> refs (dropNode ''C'' (onPaneClick afterUndo)) = (historyRef afterUndo, 1, False)
   \<and> nodes (dropNode ''C'' (onPaneClick afterUndo))
       = [labelled ''A'' ''test message 1'', labelled ''C'' ''test message 2'']
   \<and> historyRef (dropNode ''D'' (dropNode ''C'' (onPaneClick afterUndo)))
       = [\<lparr> nodes = [], edges = [] \<rparr>,
          \<lparr> nodes = [labelled ''A'' ''test message 1''], edges = [] \<rparr>,
          \<lparr> nodes = [labelled ''A'' ''test message 1'', labelled ''C'' ''test message 2'',
                      labelled ''D'' ''test message 3''], edges = [] \<rparr>]"
  using guard_single_use [where st = afterUndo and ns = "[labelled ''C'' ''c'']" and es = "[]",
      THEN conjunct2, THEN conjunct2, THEN conjunct1]
    guard_single_use [where st = afterUndo and n = "labelled ''A'' ''test message 1''",
      THEN conjunct2, THEN conjunct2, THEN conjunct2, THEN conjunct2, THEN conjunct1]
    guard_single_use [where st = "onPaneClick afterUndo" and ty = "''textNode''"
      and f = "\<lambda>p. p" and c = "\<lparr> pos_x = 0, pos_y = 0 \<rparr>" and i = "''C''"
      and p = "link ''A'' ''B''" and cs = "[]",
      THEN conjunct2, THEN conjunct2, THEN conjunct2, THEN conjunct2, THEN conjunct2,
      THEN conjunct2, THEN conjunct1]
  by (simp add: MAX_HISTORY_def afterUndo_def dropNode_def onDrop_def pushHistory_def Let_def
        undo_def index_def refs_def onPaneClick_def onNodeClick_def onTextChange_def onSave_def
        notify_def slice0_def deepCopy_def initial_def labelled_def decimal_1_2 decimal_2_3)

section \<open>The history invariant and its bound\<close>

lemma history_ok_live [simp]:
  "history_ok (st\<lparr> nodes := a \<rparr>) = history_ok st"
  "history_ok (st\<lparr> edges := b \<rparr>) = history_ok st"
  "history_ok (st\<lparr> selectedNode := c \<rparr>) = history_ok st"
  "history_ok (st\<lparr> toasts := d \<rparr>) = history_ok st"
  "history_ok (st\<lparr> isUndoRedoAction := f \<rparr>) = history_ok st"
  by (simp_all add: history_ok_def)

lemma history_ok_push:
  assumes "history_ok st"
  shows "history_ok (pushHistory ns es st)"
proof (cases "isUndoRedoAction st")
  case True
  then show ?thesis using assms by (simp add: pushHistory_def)
next
  case False
  let ?pushed = "slice0 (historyRef st) (historyIndexRef st + 1)
                   @ [\<lparr> nodes = deepCopy ns, edges = deepCopy es \<rparr>]"
  let ?new = "if length ?pushed > MAX_HISTORY then tl ?pushed else ?pushed"
  have len: "length ?pushed = nat (historyIndexRef st + 1) + 1"
    using assms by (auto simp: slice0_def history_ok_def)
  have "0 < length ?new \<and> length ?new \<le> MAX_HISTORY"
    using assms unfolding len history_ok_def MAX_HISTORY_def
    by (simp only: length_tl len split: if_split) auto
  moreover have "historyRef (pushHistory ns es st) = ?new"
    and "historyIndexRef (pushHistory ns es st) = int (length ?new) - 1"
    using False by (simp_all add: pushHistory_def Let_def)
  ultimately show ?thesis
    unfolding history_ok_def by (simp only:) auto
qed

lemma undo_total: "history_ok st \<Longrightarrow> \<exists>st'. undo st = Inr st'"
  by (simp add: undo_def Let_def history_ok_def index_def)

lemma redo_total: "history_ok st \<Longrightarrow> \<exists>st'. redo st = Inr st'"
  by (simp add: redo_def Let_def history_ok_def index_def)

lemma history_ok_undo:
  "history_ok st \<Longrightarrow> undo st = Inr st' \<or> undo st = Inl (TypeError st') \<Longrightarrow> history_ok st'"
  by (auto simp: undo_def Let_def history_ok_def index_def split: if_splits)

lemma history_ok_redo:
  "history_ok st \<Longrightarrow> redo st = Inr st' \<or> redo st = Inl (TypeError st') \<Longrightarrow> history_ok st'"
  by (auto simp: redo_def Let_def history_ok_def index_def split: if_splits)

lemma history_ok_handlers:
  assumes "history_ok st"
  shows "history_ok (onConnect p st)"
    and "history_ok (onDrop ty inst c i st)"
    and "history_ok (handleNodesChange r1 cs st)"
    and "history_ok (handleEdgesChange r2 cs st)"
    and "history_ok (onTextChange t st)"
    and "history_ok (onNodeClick n st)"
    and "history_ok (onPaneClick st)"
    and "history_ok (onDeselectNode st)"
    and "history_ok (onSave st)"
  using assms
  by (simp_all add: onConnect_def onDrop_def handleNodesChange_def handleEdgesChange_def
        onTextChange_def onNodeClick_def onPaneClick_def onDeselectNode_def onSave_def
        notify_def Let_def history_ok_push split: option.split)

lemma reachable_history_ok: "reachable st \<Longrightarrow> history_ok st"
proof (induction rule: reachable.induct)
  case r_initial
  show ?case by (simp add: history_ok_def initial_def MAX_HISTORY_def)
next
  case (r_undo st st')
  then show ?case using history_ok_undo by blast
next
  case (r_undo_throw st st')
  then show ?case using history_ok_undo by blast
next
  case (r_redo st st')
  then show ?case using history_ok_redo by blast
next
  case (r_redo_throw st st')
  then show ?case using history_ok_redo by blast
qed (simp_all add: history_ok_push history_ok_handlers)


text \<open>A commit at the end of the history, flag cleared: append, keeping the last 50.\<close>

lemma pushHistory_at_end:
  assumes "\<not> isUndoRedoAction st"
    and "historyIndexRef st = int (length (historyRef st)) - 1"
    and "historyRef st \<noteq> []" and "length (historyRef st) \<le> MAX_HISTORY"
  shows "historyRef (pushHistory ns es st)
           = drop (length (historyRef st) + 1 - MAX_HISTORY)
               (historyRef st @ [\<lparr> nodes = ns, edges = es \<rparr>])"
    and "historyIndexRef (pushHistory ns es st)
           = int (length (historyRef (pushHistory ns es st))) - 1"
    and "\<not> isUndoRedoAction (pushHistory ns es st)"
    and "historyRef (pushHistory ns es st) \<noteq> []"
    and "length (historyRef (pushHistory ns es st)) \<le> MAX_HISTORY"
proof -
  have sl: "slice0 (historyRef st) (historyIndexRef st + 1) = historyRef st"
    using assms(2,3) by (simp add: slice0_def)
  have h: "historyRef (pushHistory ns es st) =
     (if length (historyRef st) + 1 > MAX_HISTORY
      then tl (historyRef st @ [\<lparr> nodes = ns, edges = es \<rparr>])
      else historyRef st @ [\<lparr> nodes = ns, edges = es \<rparr>])"
    using assms(1) by (simp add: pushHistory_def Let_def sl deepCopy_def)
  show 1: "historyRef (pushHistory ns es st)
           = drop (length (historyRef st) + 1 - MAX_HISTORY)
               (historyRef st @ [\<lparr> nodes = ns, edges = es \<rparr>])"
  proof (cases "length (historyRef st) + 1 > MAX_HISTORY")
    case True
    then have k: "length (historyRef st) + 1 - MAX_HISTORY = Suc 0"
      using assms(4) by simp
    have d: "tl xs = drop (Suc 0) xs" for xs :: "snapshot list"
      by (simp add: drop_Suc)
    have "historyRef (pushHistory ns es st) = tl (historyRef st @ [\<lparr> nodes = ns, edges = es \<rparr>])"
      using True h by simp
    then show ?thesis unfolding k by (simp only: d)
  next
    case False
    then show ?thesis using h by simp
  qed
  show "historyIndexRef (pushHistory ns es st)
           = int (length (historyRef (pushHistory ns es st))) - 1"
    using assms(1) by (simp add: pushHistory_def Let_def)
  show "\<not> isUndoRedoAction (pushHistory ns es st)"
    by (simp add: pushHistory_def Let_def)
  show "historyRef (pushHistory ns es st) \<noteq> []"
    using assms(3) h by (cases "historyRef st") (auto simp: MAX_HISTORY_def)
  show "length (historyRef (pushHistory ns es st)) \<le> MAX_HISTORY"
    using assms(4) h by auto
qed

lemma commits_at_end:
  assumes "\<not> isUndoRedoAction st"
    and "historyIndexRef st = int (length (historyRef st)) - 1"
    and "historyRef st \<noteq> []" and "length (historyRef st) \<le> MAX_HISTORY"
  shows "historyRef (commits cs st)
           = drop (length (historyRef st) + length cs - MAX_HISTORY)
               (historyRef st @ map snapshotOf cs)
         \<and> historyIndexRef (commits cs st) = int (length (historyRef (commits cs st))) - 1
         \<and> \<not> isUndoRedoAction (commits cs st)"
  using assms
proof (induction cs arbitrary: st)
  case Nil
  then show ?case by simp
next
  case (Cons c cs)
  let ?st1 = "pushHistory (fst c) (snd c) st"
  let ?h = "historyRef st" and ?s = "snapshotOf c"
  note p = pushHistory_at_end [OF Cons.prems, of "fst c" "snd c"]
  have h1: "historyRef ?st1 = drop (length ?h + 1 - MAX_HISTORY) (?h @ [?s])"
    using p(1) by (simp add: snapshotOf_def)
  have ih: "historyRef (commits cs ?st1)
           = drop (length (historyRef ?st1) + length cs - MAX_HISTORY)
               (historyRef ?st1 @ map snapshotOf cs)
         \<and> historyIndexRef (commits cs ?st1) = int (length (historyRef (commits cs ?st1))) - 1
         \<and> \<not> isUndoRedoAction (commits cs ?st1)"
    by (rule Cons.IH [OF p(3) p(2) p(4) p(5)])
  have le: "length ?h + 1 - MAX_HISTORY \<le> length (?h @ [?s])"
    by simp
  have "drop (length (historyRef ?st1) + length cs - MAX_HISTORY)
               (historyRef ?st1 @ map snapshotOf cs)
      = drop (length ?h + length (c # cs) - MAX_HISTORY) (?h @ map snapshotOf (c # cs))"
  proof -
    let ?k = "length ?h + 1 - MAX_HISTORY"
    have a: "historyRef ?st1 @ map snapshotOf cs = drop ?k ((?h @ [?s]) @ map snapshotOf cs)"
      unfolding h1 using le by (simp only: drop_append) simp
    have b: "length (historyRef ?st1) = length ?h + 1 - ?k"
      unfolding h1 by simp
    have c: "length ?h + 1 - ?k + length cs - MAX_HISTORY + ?k
               = length ?h + length (c # cs) - MAX_HISTORY"
      using Cons.prems(4) by simp
    show ?thesis
      unfolding a b by (simp only: drop_drop c) simp
  qed
  then show ?case using ih by simp
qed

lemma sixty_commits:
  assumes "length cs = 60"
  shows "historyRef (commits cs initial) = map snapshotOf (drop 10 cs)"
    and "historyIndexRef (commits cs initial) = 49"
    and "\<not> isUndoRedoAction (commits cs initial)"
proof -
  have i: "\<not> isUndoRedoAction initial"
    "historyIndexRef initial = int (length (historyRef initial)) - 1"
    "historyRef initial \<noteq> []" "length (historyRef initial) \<le> MAX_HISTORY"
    by (simp_all add: initial_def MAX_HISTORY_def)
  note c = commits_at_end [OF i, of cs]
  have "historyRef (commits cs initial)
          = drop 11 (\<lparr> nodes = [], edges = [] \<rparr> # map snapshotOf cs)"
    using c assms by (simp add: initial_def MAX_HISTORY_def)
  then show h: "historyRef (commits cs initial) = map snapshotOf (drop 10 cs)"
    by (simp add: drop_map)
  show "historyIndexRef (commits cs initial) = 49"
    using c assms unfolding h by simp
  show "\<not> isUndoRedoAction (commits cs initial)"
    using c by simp
qed


lemma undo_step:
  assumes "history_ok st" and "0 < historyIndexRef st"
  shows "undo st = Inr (st\<lparr> nodes := nodes (historyRef st ! nat (historyIndexRef st - 1)),
                          edges := edges (historyRef st ! nat (historyIndexRef st - 1)),
                          selectedNode := None,
                          historyIndexRef := historyIndexRef st - 1,
                          isUndoRedoAction := True \<rparr>)"
  using assms by (simp add: undo_def Let_def history_ok_def index_in deepCopy_def)

lemma undoTimes_run:
  assumes "history_ok st"
  shows "\<exists>st'. undoTimes n st = Inr st'
           \<and> historyRef st' = historyRef st
           \<and> historyIndexRef st' = max 0 (historyIndexRef st - int n)
           \<and> ((0 < n \<and> 0 < historyIndexRef st)
               \<or> (nodes st = nodes (historyRef st ! nat (historyIndexRef st))
                  \<and> edges st = edges (historyRef st ! nat (historyIndexRef st)))
              \<longrightarrow> nodes st' = nodes (historyRef st' ! nat (historyIndexRef st'))
                \<and> edges st' = edges (historyRef st' ! nat (historyIndexRef st')))"
  using assms
proof (induction n arbitrary: st)
  case 0
  then show ?case by (simp add: history_ok_def)
next
  case (Suc n)
  show ?case
  proof (cases "0 < historyIndexRef st")
    case False
    then have u: "undo st = Inr st" by (simp add: undo_def)
    from Suc.IH [OF Suc.prems] obtain st' where
      r: "undoTimes n st = Inr st'" "historyRef st' = historyRef st"
         "historyIndexRef st' = max 0 (historyIndexRef st - int n)"
         "(0 < n \<and> 0 < historyIndexRef st)
               \<or> (nodes st = nodes (historyRef st ! nat (historyIndexRef st))
                  \<and> edges st = edges (historyRef st ! nat (historyIndexRef st)))
              \<longrightarrow> nodes st' = nodes (historyRef st' ! nat (historyIndexRef st'))
                \<and> edges st' = edges (historyRef st' ! nat (historyIndexRef st'))"
      by blast
    have "undoTimes (Suc n) st = Inr st'" using u r(1) by simp
    moreover have "historyIndexRef st' = max 0 (historyIndexRef st - int (Suc n))"
      using r(3) False by simp
    ultimately show ?thesis using r(2,4) False by blast
  next
    case True
    let ?st1 = "st\<lparr> nodes := nodes (historyRef st ! nat (historyIndexRef st - 1)),
                          edges := edges (historyRef st ! nat (historyIndexRef st - 1)),
                          selectedNode := None,
                          historyIndexRef := historyIndexRef st - 1,
                          isUndoRedoAction := True \<rparr>"
    have u: "undo st = Inr ?st1" by (rule undo_step [OF Suc.prems True])
    have ok1: "history_ok ?st1"
      using Suc.prems True by (simp add: history_ok_def)
    from Suc.IH [OF ok1] obtain st' where
      r: "undoTimes n ?st1 = Inr st'" "historyRef st' = historyRef ?st1"
         "historyIndexRef st' = max 0 (historyIndexRef ?st1 - int n)"
         "(0 < n \<and> 0 < historyIndexRef ?st1)
               \<or> (nodes ?st1 = nodes (historyRef ?st1 ! nat (historyIndexRef ?st1))
                  \<and> edges ?st1 = edges (historyRef ?st1 ! nat (historyIndexRef ?st1)))
              \<longrightarrow> nodes st' = nodes (historyRef st' ! nat (historyIndexRef st'))
                \<and> edges st' = edges (historyRef st' ! nat (historyIndexRef st'))"
      by blast
    have s1: "nodes ?st1 = nodes (historyRef ?st1 ! nat (historyIndexRef ?st1))
                  \<and> edges ?st1 = edges (historyRef ?st1 ! nat (historyIndexRef ?st1))"
      by simp
    have "undoTimes (Suc n) st = Inr st'" using u r(1) by simp
    moreover have "historyRef st' = historyRef st" using r(2) by simp
    moreover have "historyIndexRef st' = max 0 (historyIndexRef st - int (Suc n))"
      using r(3) by simp
    moreover have "nodes st' = nodes (historyRef st' ! nat (historyIndexRef st'))
                \<and> edges st' = edges (historyRef st' ! nat (historyIndexRef st'))"
      using r(4) s1 by blast
    ultimately show ?thesis by blast
  qed
qed

text \<open>
  C3. In every reachable state the index lies within the history and the history has at
  most \<open>MAX_HISTORY\<close> = 50 entries; there \<open>undo\<close> and \<open>redo\<close> return without throwing.
  Sixty commits in a row from the initial state leave exactly the snapshots of the last
  fifty of them: those of the first ten are gone (and so is the initial empty entry), the
  index is 49 and points at the snapshot of the last commit. Pressing \<open>undo\<close> \<open>n\<close> times
  from there never throws, never changes the history, and leaves the index at
  \<open>max 0 (49 - n)\<close> with the live graph that of the entry there: from the 49th press
  on it stays at index 0, on the graph of the eleventh commit.
\<close>

theorem history_bounded:
  "MAX_HISTORY = 50
   \<and> (reachable st \<longrightarrow>
        0 \<le> historyIndexRef st \<and> historyIndexRef st < int (length (historyRef st))
        \<and> length (historyRef st) \<le> MAX_HISTORY
        \<and> (\<exists>st'. undo st = Inr st') \<and> (\<exists>st'. redo st = Inr st'))
   \<and> (length cs = 60 \<longrightarrow>
        historyRef (commits cs initial) = map snapshotOf (drop 10 cs)
        \<and> length (historyRef (commits cs initial)) = 50
        \<and> historyIndexRef (commits cs initial) = 49
        \<and> last (historyRef (commits cs initial)) = snapshotOf (last cs)
        \<and> (\<forall>n. \<exists>st'. undoTimes n (commits cs initial) = Inr st'
              \<and> historyRef st' = historyRef (commits cs initial)
              \<and> historyIndexRef st' = max 0 (49 - int n)
              \<and> (0 < n \<longrightarrow> nodes st' = fst (cs ! (10 + nat (historyIndexRef st')))
                         \<and> edges st' = snd (cs ! (10 + nat (historyIndexRef st'))))
              \<and> (49 \<le> n \<longrightarrow> historyIndexRef st' = 0
                         \<and> nodes st' = fst (cs ! 10) \<and> edges st' = snd (cs ! 10))))"
proof -
  have inv: "reachable st \<longrightarrow>
        0 \<le> historyIndexRef st \<and> historyIndexRef st < int (length (historyRef st))
        \<and> length (historyRef st) \<le> MAX_HISTORY
        \<and> (\<exists>st'. undo st = Inr st') \<and> (\<exists>st'. redo st = Inr st')"
    using reachable_history_ok [of st] undo_total [of st] redo_total [of st]
    by (auto simp: history_ok_def)
  have sixty: "length cs = 60 \<longrightarrow>
        historyRef (commits cs initial) = map snapshotOf (drop 10 cs)
        \<and> length (historyRef (commits cs initial)) = 50
        \<and> historyIndexRef (commits cs initial) = 49
        \<and> last (historyRef (commits cs initial)) = snapshotOf (last cs)
        \<and> (\<forall>n. \<exists>st'. undoTimes n (commits cs initial) = Inr st'
              \<and> historyRef st' = historyRef (commits cs initial)
              \<and> historyIndexRef st' = max 0 (49 - int n)
              \<and> (0 < n \<longrightarrow> nodes st' = fst (cs ! (10 + nat (historyIndexRef st')))
                         \<and> edges st' = snd (cs ! (10 + nat (historyIndexRef st'))))
              \<and> (49 \<le> n \<longrightarrow> historyIndexRef st' = 0
                         \<and> nodes st' = fst (cs ! 10) \<and> edges st' = snd (cs ! 10)))"
  proof (intro impI)
    assume len: "length cs = 60"
    let ?s = "commits cs initial"
    note six = sixty_commits [OF len]
    have h: "historyRef ?s = map snapshotOf (drop 10 cs)" by (rule six(1))
    have l: "length (historyRef ?s) = 50" unfolding h using len by simp
    have i: "historyIndexRef ?s = 49" by (rule six(2))
    have ne: "cs \<noteq> []" "drop 10 cs \<noteq> []" using len by auto
    have la: "last (historyRef ?s) = snapshotOf (last cs)"
      unfolding h using ne by (simp add: last_map)
    have ok: "history_ok ?s"
      using l i by (simp add: history_ok_def MAX_HISTORY_def)
    have entry: "historyRef ?s ! k = snapshotOf (cs ! (10 + k))" if "k < 50" for k
      unfolding h using that len by simp
    have run: "\<exists>st'. undoTimes n ?s = Inr st'
              \<and> historyRef st' = historyRef ?s
              \<and> historyIndexRef st' = max 0 (49 - int n)
              \<and> (0 < n \<longrightarrow> nodes st' = fst (cs ! (10 + nat (historyIndexRef st')))
                         \<and> edges st' = snd (cs ! (10 + nat (historyIndexRef st'))))
              \<and> (49 \<le> n \<longrightarrow> historyIndexRef st' = 0
                         \<and> nodes st' = fst (cs ! 10) \<and> edges st' = snd (cs ! 10))" for n
    proof -
      from undoTimes_run [OF ok, of n] obtain st' where
        r: "undoTimes n ?s = Inr st'" "historyRef st' = historyRef ?s"
           "historyIndexRef st' = max 0 (historyIndexRef ?s - int n)"
           "(0 < n \<and> 0 < historyIndexRef ?s)
               \<or> (nodes ?s = nodes (historyRef ?s ! nat (historyIndexRef ?s))
                  \<and> edges ?s = edges (historyRef ?s ! nat (historyIndexRef ?s)))
              \<longrightarrow> nodes st' = nodes (historyRef st' ! nat (historyIndexRef st'))
                \<and> edges st' = edges (historyRef st' ! nat (historyIndexRef st'))"
        by blast
      have i': "historyIndexRef st' = max 0 (49 - int n)" using r(3) i by simp
      then have k: "nat (historyIndexRef st') < 50" by auto
      have live: "0 < n \<longrightarrow> nodes st' = fst (cs ! (10 + nat (historyIndexRef st')))
                         \<and> edges st' = snd (cs ! (10 + nat (historyIndexRef st')))"
        using r(4) i entry [OF k] unfolding r(2) by (simp add: snapshotOf_def)
      have "49 \<le> n \<longrightarrow> historyIndexRef st' = 0
                         \<and> nodes st' = fst (cs ! 10) \<and> edges st' = snd (cs ! 10)"
        using live i' by auto
      then show ?thesis using r(1,2) i' live by blast
    qed
    show "historyRef ?s = map snapshotOf (drop 10 cs)
        \<and> length (historyRef ?s) = 50
        \<and> historyIndexRef ?s = 49
        \<and> last (historyRef ?s) = snapshotOf (last cs)
        \<and> (\<forall>n. \<exists>st'. undoTimes n ?s = Inr st'
              \<and> historyRef st' = historyRef ?s
              \<and> historyIndexRef st' = max 0 (49 - int n)
              \<and> (0 < n \<longrightarrow> nodes st' = fst (cs ! (10 + nat (historyIndexRef st')))
                         \<and> edges st' = snd (cs ! (10 + nat (historyIndexRef st'))))
              \<and> (49 \<le> n \<longrightarrow> historyIndexRef st' = 0
                         \<and> nodes st' = fst (cs ! 10) \<and> edges st' = snd (cs ! 10)))"
      using h l i la run by blast
  qed
  have cap: "MAX_HISTORY = 50" by (simp add: MAX_HISTORY_def)
  show ?thesis using cap inv sixty by blast
qed


text \<open>A reachable state (one node dropped) and a run of sixty commits.\<close>

theorem history_bounded_witness:
  "reachable (dropNode ''A'' initial)
   \<and> historyIndexRef (dropNode ''A'' initial)
       < int (length (historyRef (dropNode ''A'' initial)))
   \<and> length (replicate 60 ([labelled ''n'' ''hello''], [] :: edge list)) = 60
   \<and> historyIndexRef (commits (replicate 60 ([labelled ''n'' ''hello''], [])) initial) = 49
   \<and> length (historyRef (commits (replicate 60 ([labelled ''n'' ''hello''], [])) initial)) = 50"
proof -
  have r: "reachable (dropNode ''A'' initial)"
    unfolding dropNode_def by (rule r_drop [OF r_initial])
  have l: "length (replicate 60 ([labelled ''n'' ''hello''], [] :: edge list)) = 60"
    by (rule length_replicate)
  note inv = history_bounded [of "dropNode ''A'' initial" "[]",
      THEN conjunct2, THEN conjunct1, THEN mp, OF r]
  note six = history_bounded [of initial "replicate 60 ([labelled ''n'' ''hello''], [])",
      THEN conjunct2, THEN conjunct2, THEN mp, OF l]
  show ?thesis
    by (intro conjI r l inv [THEN conjunct2, THEN conjunct1]
          six [THEN conjunct2, THEN conjunct2, THEN conjunct1]
          six [THEN conjunct2, THEN conjunct1])
qed

section \<open>Editing after an undo\<close>

text \<open>
  The history starts as the single entry of the empty graph, at index 0, and a first
  commit followed by \<open>undo\<close> brings the empty graph back.
\<close>

lemma first_commit_undone:
  "historyRef initial = [\<lparr> nodes = [], edges = [] \<rparr>] \<and> historyIndexRef initial = 0
   \<and> undo (pushHistory ns es (initial\<lparr> nodes := ns, edges := es \<rparr>))
       = Inr (initial\<lparr> historyRef := [\<lparr> nodes = [], edges = [] \<rparr>, \<lparr> nodes = ns, edges = es \<rparr>],
                       isUndoRedoAction := True \<rparr>)"
  by (simp add: MAX_HISTORY_def pushHistory_def Let_def undo_def index_def slice0_def
        deepCopy_def initial_def)

lemma undoTimes_at_oldest: "historyIndexRef st \<le> 0 \<Longrightarrow> undoTimes n st = Inr st"
  by (induction n) (simp_all add: undo_def)

text \<open>
  C4, evaluated. A node A is dropped and the drop undone, so the entry with A lies after
  the index. Dropping a node B right away changes the live graph only: the flag set by
  \<open>undo\<close> makes \<open>pushHistory\<close> return early, so the history still ends with the entry
  holding A, nothing was truncated and B's graph was not appended. \<open>redo\<close> then is not a
  no-op: it moves to index 1 and replaces the live graph by the one with A.
\<close>

theorem undo_then_edit_keeps_future:
  "undo (dropNode ''A'' initial)
     = Inr (initial\<lparr> historyRef := [\<lparr> nodes = [], edges = [] \<rparr>,
                                      \<lparr> nodes = [labelled ''A'' ''test message 1''], edges = [] \<rparr>],
                     isUndoRedoAction := True \<rparr>)
   \<and> dropNode ''B'' (initial\<lparr> historyRef := [\<lparr> nodes = [], edges = [] \<rparr>,
                                      \<lparr> nodes = [labelled ''A'' ''test message 1''], edges = [] \<rparr>],
                     isUndoRedoAction := True \<rparr>)
     = initial\<lparr> nodes := [labelled ''B'' ''test message 1''],
                historyRef := [\<lparr> nodes = [], edges = [] \<rparr>,
                               \<lparr> nodes = [labelled ''A'' ''test message 1''], edges = [] \<rparr>] \<rparr>
   \<and> redo (initial\<lparr> nodes := [labelled ''B'' ''test message 1''],
                historyRef := [\<lparr> nodes = [], edges = [] \<rparr>,
                               \<lparr> nodes = [labelled ''A'' ''test message 1''], edges = [] \<rparr>] \<rparr>)
     = Inr (initial\<lparr> nodes := [labelled ''A'' ''test message 1''],
                historyRef := [\<lparr> nodes = [], edges = [] \<rparr>,
                               \<lparr> nodes = [labelled ''A'' ''test message 1''], edges = [] \<rparr>],
                historyIndexRef := 1, isUndoRedoAction := True \<rparr>)"
  by (simp add: MAX_HISTORY_def dropNode_def onDrop_def pushHistory_def Let_def undo_def redo_def
        index_def slice0_def deepCopy_def initial_def labelled_def decimal_1_2)

text \<open>
  C10, evaluated. The same state (A dropped, undone, B dropped) is reachable after two
  drops. Its index is 0, so \<open>undo\<close>, however often it is pressed, returns it unchanged,
  and its live graph still holds B: the run of undos does not end at the empty graph.
\<close>

theorem undo_at_oldest_keeps_unrecorded_node:
  "reachable (initial\<lparr> nodes := [labelled ''B'' ''test message 1''],
                historyRef := [\<lparr> nodes = [], edges = [] \<rparr>,
                               \<lparr> nodes = [labelled ''A'' ''test message 1''], edges = [] \<rparr>] \<rparr>)
   \<and> (\<forall>n. undoTimes n (initial\<lparr> nodes := [labelled ''B'' ''test message 1''],
                historyRef := [\<lparr> nodes = [], edges = [] \<rparr>,
                               \<lparr> nodes = [labelled ''A'' ''test message 1''], edges = [] \<rparr>] \<rparr>)
        = Inr (initial\<lparr> nodes := [labelled ''B'' ''test message 1''],
                historyRef := [\<lparr> nodes = [], edges = [] \<rparr>,
                               \<lparr> nodes = [labelled ''A'' ''test message 1''], edges = [] \<rparr>] \<rparr>))
   \<and> nodes (initial\<lparr> nodes := [labelled ''B'' ''test message 1''],
                historyRef := [\<lparr> nodes = [], edges = [] \<rparr>,
                               \<lparr> nodes = [labelled ''A'' ''test message 1''], edges = [] \<rparr>] \<rparr>) \<noteq> []"
proof -
  let ?u = "initial\<lparr> historyRef := [\<lparr> nodes = [], edges = [] \<rparr>,
                                      \<lparr> nodes = [labelled ''A'' ''test message 1''], edges = [] \<rparr>],
                     isUndoRedoAction := True \<rparr>"
  let ?s = "initial\<lparr> nodes := [labelled ''B'' ''test message 1''],
                historyRef := [\<lparr> nodes = [], edges = [] \<rparr>,
                               \<lparr> nodes = [labelled ''A'' ''test message 1''], edges = [] \<rparr>] \<rparr>"
  have u: "undo (dropNode ''A'' initial) = Inr ?u" and d: "dropNode ''B'' ?u = ?s"
    by (simp_all add: MAX_HISTORY_def dropNode_def onDrop_def pushHistory_def Let_def undo_def
        index_def slice0_def deepCopy_def initial_def labelled_def decimal_1_2)
  have "reachable (dropNode ''A'' initial)"
    unfolding dropNode_def by (rule r_drop [OF r_initial])
  then have "reachable ?u" using u by (rule r_undo)
  then have "reachable (dropNode ''B'' ?u)"
    unfolding dropNode_def by (rule r_drop)
  then have r: "reachable ?s" unfolding d .
  have "historyIndexRef ?s \<le> 0" by (simp add: initial_def)
  then have "\<forall>n. undoTimes n ?s = Inr ?s"
    by (simp add: undoTimes_at_oldest)
  moreover have "nodes ?s \<noteq> []" by simp
  ultimately show ?thesis using r by blast
qed

end
